theory Spec2Isabelle
  imports Main
begin

section \<open>A relay between websocket devices and an operator channel\<close>

text \<open>
  The server of \<^verbatim>\<open>src/server.js\<close> keeps the \<^verbatim>\<open>Map\<close> \<^verbatim>\<open>clients\<close> of its websocket
  connections, pings them every 30 seconds, terminates the transports of the entries it
  has not heard of for more than 30 seconds every 10 seconds, and relays the messages of
  the accepted chats of the operator channel to one device or to all. Each handler and
  timer callback is a function on the server state; a handler whose exception nobody
  catches returns the exception instead. Times are in milliseconds. Console output is
  not part of the state, but a log line that can raise is a branch of its handler. The
  two read-only HTTP routes and the login to the operator channel are left out: the
  outcome of the login is the pair \<^verbatim>\<open>telegramSelfUser\<close> and \<^verbatim>\<open>allowedChatIds\<close> of the
  state.
\<close>

subsection \<open>JavaScript values\<close>

text \<open>
  The values that \<^verbatim>\<open>JSON.parse\<close> produces, together with \<^verbatim>\<open>undefined\<close>, which a
  property access yields for a missing key and which the transport reports when it does
  not know the peer's address. Strings are byte strings (UTF-8); a number carries its
  value only as far as the code looks at it, which is whether it is zero.
\<close>

datatype jsval =
    JUndefined
  | JNull
  | JBool bool
  | JNum int
  | JStr string
  | JArr "jsval list"
  | JObj "(string \<times> jsval) list"

datatype error = SyntaxError | TypeError

text \<open>Truthiness, as \<^verbatim>\<open>||\<close> and \<^verbatim>\<open>if\<close> test it.\<close>

fun truthy :: "jsval \<Rightarrow> bool" where
  "truthy JUndefined = False"
| "truthy JNull = False"
| "truthy (JBool b) = b"
| "truthy (JNum n) = (n \<noteq> 0)"
| "truthy (JStr s) = (s \<noteq> [])"
| "truthy (JArr vs) = True"
| "truthy (JObj kvs) = True"

definition or_else :: "jsval \<Rightarrow> jsval \<Rightarrow> jsval" where
  "or_else a b = (if truthy a then a else b)"

text \<open>
  \<^verbatim>\<open>data.key\<close>: a \<^verbatim>\<open>TypeError\<close> on \<^verbatim>\<open>null\<close> and \<^verbatim>\<open>undefined\<close>, the own property of an
  object, and \<^verbatim>\<open>undefined\<close> otherwise. The keys the server reads (\<^verbatim>\<open>type\<close>, \<^verbatim>\<open>ip\<close>,
  \<^verbatim>\<open>location_device\<close>) are not inherited from any prototype.
\<close>

fun get_prop :: "jsval \<Rightarrow> string \<Rightarrow> error + jsval" where
  "get_prop JUndefined k = Inl TypeError"
| "get_prop JNull k = Inl TypeError"
| "get_prop (JObj kvs) k = Inr (case map_of kvs k of None \<Rightarrow> JUndefined | Some v \<Rightarrow> v)"
| "get_prop v k = Inr JUndefined"

definition field :: "jsval \<Rightarrow> string \<Rightarrow> jsval" where
  "field v k = (case get_prop v k of Inl e \<Rightarrow> JUndefined | Inr x \<Rightarrow> x)"

text \<open>
  A template literal converts each interpolated value to a string. The conversion raises
  a \<^verbatim>\<open>TypeError\<close> for an object that has an own property \<^verbatim>\<open>toString\<close> (a parsed value
  is never callable, and the inherited \<^verbatim>\<open>valueOf\<close> returns the object itself), and for
  an array with such an element; every other value converts.
\<close>

fun printable :: "jsval \<Rightarrow> bool" where
  "printable (JObj kvs) = (''toString'' \<notin> set (map fst kvs))"
| "printable (JArr vs) = list_all printable vs"
| "printable v = True"

section \<open>The Map of clients\<close>

text \<open>
  A JavaScript \<^verbatim>\<open>Map\<close> iterates in insertion order, holds each key once, and keeps the
  position of a key whose value is replaced: an association list.
\<close>

definition map_get :: "('k \<times> 'v) list \<Rightarrow> 'k \<Rightarrow> 'v option" where
  "map_get m k = map_of m k"

fun map_set :: "'k \<Rightarrow> 'v \<Rightarrow> ('k \<times> 'v) list \<Rightarrow> ('k \<times> 'v) list" where
  "map_set k v [] = [(k, v)]"
| "map_set k v ((k', v') # m) = (if k' = k then (k, v) # m else (k', v') # map_set k v m)"

definition map_delete :: "'k \<Rightarrow> ('k \<times> 'v) list \<Rightarrow> ('k \<times> 'v) list" where
  "map_delete k m = filter (\<lambda>e. fst e \<noteq> k) m"

section \<open>Transports\<close>

text \<open>
  The \<^verbatim>\<open>ws\<close> object of a connection: its \<^verbatim>\<open>readyState\<close>, the \<^verbatim>\<open>isAlive\<close> flag the
  server attaches, and what has been sent on it (the object given to
  \<^verbatim>\<open>JSON.stringify\<close>, in order). The objects live in a store indexed by handles, since the
  registry entry and the handlers of the connection share one object.
\<close>

datatype ready_state = CONNECTING | OPEN | CLOSING | CLOSED

record websocket =
  readyState :: ready_state
  isAlive :: bool
  sent :: "jsval list"

type_synonym sockets = "nat \<Rightarrow> websocket"

text \<open>\<^verbatim>\<open>ws.send(data)\<close> on a transport that the caller has found open.\<close>

definition ws_send :: "nat \<Rightarrow> jsval \<Rightarrow> sockets \<Rightarrow> sockets" where
  "ws_send h data socks = socks(h := (socks h)\<lparr>sent := sent (socks h) @ [data]\<rparr>)"

text \<open>
  \<^verbatim>\<open>ws.terminate()\<close> of the library: nothing on a closed transport; otherwise the
  socket is destroyed and the transport is \<^verbatim>\<open>CLOSING\<close> until the library emits its
  \<^verbatim>\<open>close\<close> event, in a later turn of the event loop.
\<close>

definition terminate :: "nat \<Rightarrow> sockets \<Rightarrow> sockets" where
  "terminate h socks =
     (if readyState (socks h) = CLOSED then socks
      else socks(h := (socks h)\<lparr>readyState := CLOSING\<rparr>))"

section \<open>Server state\<close>

record client_metadata =
  ip :: jsval
  location_device :: jsval
  lastSeen :: int

record client_data =
  ws :: nat
  metadata :: client_metadata

text \<open>What \<^verbatim>\<open>telegramClient.sendMessage\<close> is given on a registration: the device
  description, the address and \<^verbatim>\<open>clients.size\<close>, which the message text interpolates.\<close>

datatype notice = ClientRegistered jsval jsval nat

record server_state =
  clients :: "(string \<times> client_data) list"
  sockets :: sockets
  telegramSelfUser :: "string option"
  allowedChatIds :: "string set"
  telegramSent :: "(string \<times> notice) list"

text \<open>The variables a connection's handlers close over.\<close>

record conn =
  clientId :: string
  clientIP :: jsval
  conn_ws :: nat

section \<open>The connection handler\<close>

text \<open>
  \<^verbatim>\<open>wss.on("connection")\<close>: the library hands over an open transport, here the fresh
  object at the handle; \<^verbatim>\<open>uuidv4()\<close> and \<^verbatim>\<open>new Date()\<close> are the identifier and the
  time (milliseconds) of the event.
\<close>

text \<open>The placeholder description of a new entry: U+1F504 (four bytes) and \<^verbatim>\<open> Waiting...\<close>.\<close>

definition waiting :: string where
  "waiting = CHR 0xF0 # CHR 0x9F # CHR 0x94 # CHR 0x84 # '' Waiting...''"

definition on_connection :: "conn \<Rightarrow> int \<Rightarrow> server_state \<Rightarrow> server_state" where
  "on_connection c now s =
     (let socks1 = (sockets s)(conn_ws c := \<lparr>readyState = OPEN, isAlive = True, sent = []\<rparr>);
          entry = \<lparr>ws = conn_ws c,
                   metadata = \<lparr>ip = clientIP c, location_device = JStr waiting,
                               lastSeen = now\<rparr>\<rparr>;
          clients1 = map_set (clientId c) entry (clients s);
          socks2 = ws_send (conn_ws c)
                     (JObj [(''type'', JStr ''connected''), (''clientId'', JStr (clientId c))]) socks1
      in s\<lparr>clients := clients1, sockets := socks2\<rparr>)"

text \<open>The \<^verbatim>\<open>pong\<close> handler \<^verbatim>\<open>heartbeat\<close>: \<^verbatim>\<open>this.isAlive = true\<close>.\<close>

definition heartbeat :: "conn \<Rightarrow> server_state \<Rightarrow> server_state" where
  "heartbeat c s =
     s\<lparr>sockets := (sockets s)(conn_ws c := (sockets s (conn_ws c))\<lparr>isAlive := True\<rparr>)\<rparr>"

text \<open>
  The \<^verbatim>\<open>message\<close> handler. \<^verbatim>\<open>JSON.parse\<close> is a parameter (\<open>None\<close> when it raises);
  every exception inside the \<^verbatim>\<open>try\<close> block ends the handler with the state reached so
  far. The log line of a registration interpolates the description and the address, so
  it raises after the entry is stored and before the operator is notified when one of
  them does not convert to a string.
\<close>

definition on_message ::
  "(string \<Rightarrow> jsval option) \<Rightarrow> conn \<Rightarrow> int \<Rightarrow> string \<Rightarrow> server_state \<Rightarrow> server_state" where
  "on_message parse c now text s =
     (case parse text of
        None \<Rightarrow> s
      | Some data \<Rightarrow>
          (case map_get (clients s) (clientId c) of
             None \<Rightarrow> s
           | Some clientData \<Rightarrow>
               (case get_prop data ''type'' of
                  Inl e \<Rightarrow> s
                | Inr ty \<Rightarrow>
                    if ty = JStr ''connect'' then
                      (let locationDevice = or_else (field data ''location_device'') (JStr ''Unknown'');
                           metadata1 = (metadata clientData)
                             \<lparr>ip := or_else (field data ''ip'') (clientIP c),
                              location_device := locationDevice,
                              lastSeen := now\<rparr>;
                           s1 = s\<lparr>clients := map_set (clientId c)
                                   \<lparr>ws = conn_ws c, metadata = metadata1\<rparr> (clients s)\<rparr>
                       in if printable locationDevice \<and> printable (ip metadata1) then
                            (case telegramSelfUser s1 of
                               None \<Rightarrow> s1
                             | Some u \<Rightarrow>
                                 s1\<lparr>telegramSent := telegramSent s1 @
                                   [(u, ClientRegistered locationDevice (ip metadata1)
                                          (length (clients s1)))]\<rparr>)
                          else s1)
                    else if ty = JStr ''heartbeat'' then
                      s\<lparr>clients := map_set (clientId c)
                          (clientData\<lparr>metadata := (metadata clientData)\<lparr>lastSeen := now\<rparr>\<rparr>)
                          (clients s)\<rparr>
                    else s)))"

text \<open>
  The \<^verbatim>\<open>close\<close> handler: the log line interpolates the address of the entry (or
  \<^verbatim>\<open>"unknown"\<close>) before the entry is deleted; an exception there is not caught.
\<close>

definition on_close :: "conn \<Rightarrow> server_state \<Rightarrow> error + server_state" where
  "on_close c s =
     (let addr = (case map_get (clients s) (clientId c) of
                    None \<Rightarrow> JStr ''unknown''
                  | Some clientData \<Rightarrow> or_else (ip (metadata clientData)) (JStr ''unknown''))
      in if printable addr then Inr (s\<lparr>clients := map_delete (clientId c) (clients s)\<rparr>)
         else Inl TypeError)"

text \<open>The \<^verbatim>\<open>error\<close> handler only logs \<^verbatim>\<open>err.message\<close>.\<close>

definition on_error :: "conn \<Rightarrow> server_state \<Rightarrow> server_state" where
  "on_error c s = s"

section \<open>Broadcast and the two timers\<close>

text \<open>\<^verbatim>\<open>broadcast\<close>: the loop over \<^verbatim>\<open>clients.values()\<close>, sending on the open transports.\<close>

fun broadcast_loop :: "jsval \<Rightarrow> (string \<times> client_data) list \<Rightarrow> sockets \<Rightarrow> sockets" where
  "broadcast_loop data [] socks = socks"
| "broadcast_loop data ((k, d) # rest) socks =
     broadcast_loop data rest
       (if readyState (socks (ws d)) = OPEN then ws_send (ws d) data socks else socks)"

definition broadcast :: "jsval \<Rightarrow> server_state \<Rightarrow> server_state" where
  "broadcast messageObj s = s\<lparr>sockets := broadcast_loop messageObj (clients s) (sockets s)\<rparr>"

text \<open>The 30-second timer.\<close>

definition probe_tick :: "server_state \<Rightarrow> server_state" where
  "probe_tick s = broadcast (JObj [(''type'', JStr ''command''), (''action'', JStr ''ping'')]) s"

text \<open>
  The 10-second timer, at time \<open>now\<close> (milliseconds). For an entry older than 30000 the
  log line interpolates the address, then the transport is terminated; an exception of
  the log line is not caught and ends the callback. The callback does not touch
  \<^verbatim>\<open>clients\<close>.
\<close>

fun sweep_loop :: "int \<Rightarrow> (string \<times> client_data) list \<Rightarrow> sockets \<Rightarrow> error + sockets" where
  "sweep_loop now [] socks = Inr socks"
| "sweep_loop now ((k, d) # rest) socks =
     (if now - lastSeen (metadata d) > 30000 then
        (if printable (ip (metadata d)) then sweep_loop now rest (terminate (ws d) socks)
         else Inl TypeError)
      else sweep_loop now rest socks)"

definition sweep :: "int \<Rightarrow> server_state \<Rightarrow> error + server_state" where
  "sweep now s =
     (case sweep_loop now (clients s) (sockets s) of
        Inl e \<Rightarrow> Inl e
      | Inr socks \<Rightarrow> Inr (s\<lparr>sockets := socks\<rparr>))"

text \<open>
  The library's \<^verbatim>\<open>close\<close> event of a transport: the transport is \<^verbatim>\<open>CLOSED\<close>, then the
  handler runs.
\<close>

definition close_event :: "conn \<Rightarrow> server_state \<Rightarrow> error + server_state" where
  "close_event c s =
     on_close c (s\<lparr>sockets := (sockets s)(conn_ws c := (sockets s (conn_ws c))\<lparr>readyState := CLOSED\<rparr>)\<rparr>)"

text \<open>
  The library's \<^verbatim>\<open>error\<close> event of a transport: the library has made the transport
  \<^verbatim>\<open>CLOSING\<close> when the handler runs; the \<^verbatim>\<open>close\<close> event of the transport follows as an
  event of its own.
\<close>

definition error_event :: "conn \<Rightarrow> server_state \<Rightarrow> server_state" where
  "error_event c s =
     on_error c (s\<lparr>sockets := (sockets s)(conn_ws c := (sockets s (conn_ws c))\<lparr>readyState := CLOSING\<rparr>)\<rparr>)"

section \<open>The operator channel\<close>

text \<open>\<^verbatim>\<open>toLowerCase\<close> on the ASCII letters, which decides the comparison with \<^verbatim>\<open>"esp32"\<close>:
  no other character has a lower-case form among the characters of that tag.\<close>

definition lower_char :: "char \<Rightarrow> char" where
  "lower_char c =
     (let n = (of_char c :: nat) in if 65 \<le> n \<and> n \<le> 90 then char_of (n + 32) else c)"

definition toLowerCase :: "string \<Rightarrow> string" where
  "toLowerCase s = map lower_char s"

text \<open>\<^verbatim>\<open>text.split(sep)\<close> for a separator of one character, and \<^verbatim>\<open>parts.join(sep)\<close>.\<close>

fun str_split :: "char \<Rightarrow> string \<Rightarrow> string list" where
  "str_split sep [] = [[]]"
| "str_split sep (c # cs) =
     (if c = sep then [] # str_split sep cs
      else (c # hd (str_split sep cs)) # tl (str_split sep cs))"

fun str_join :: "string \<Rightarrow> string list \<Rightarrow> string" where
  "str_join sep [] = []"
| "str_join sep [p] = p"
| "str_join sep (p # q # ps) = p @ sep @ str_join sep (q # ps)"

text \<open>The fields of \<^verbatim>\<open>event.message\<close> the handler reads; the two identifiers after
  \<^verbatim>\<open>?.toString()\<close>, \<open>None\<close> when absent.\<close>

record tg_message =
  chatId :: "string option"
  senderId :: "string option"
  message :: string

text \<open>The loop of a point-to-point command over \<^verbatim>\<open>clients.entries()\<close>.\<close>

fun unicast_loop :: "string \<Rightarrow> string \<Rightarrow> (string \<times> client_data) list \<Rightarrow> sockets \<Rightarrow> sockets" where
  "unicast_loop clientID command [] socks = socks"
| "unicast_loop clientID command ((k, d) # rest) socks =
     unicast_loop clientID command rest
       (if k = clientID \<and> readyState (socks (ws d)) = OPEN
        then ws_send (ws d) (JObj [(''clientID'', JStr clientID), (''message'', JStr command)]) socks
        else socks)"

text \<open>\<^verbatim>\<open>msg.senderId?.toString() || "unknown"\<close>.\<close>

definition sender_of :: "tg_message \<Rightarrow> string" where
  "sender_of msg =
     (case senderId msg of None \<Rightarrow> ''unknown'' | Some i \<Rightarrow> if i = [] then ''unknown'' else i)"

text \<open>The handler of the operator channel; \<open>None\<close> is an event without a message.\<close>

definition on_telegram :: "tg_message option \<Rightarrow> server_state \<Rightarrow> server_state" where
  "on_telegram ev s =
     (case ev of
        None \<Rightarrow> s
      | Some msg \<Rightarrow>
          if message msg = [] then s
          else
            (let sender = sender_of msg;
                 text = message msg
             in case chatId msg of
                  None \<Rightarrow> s
                | Some chat \<Rightarrow>
                    if chat \<notin> allowedChatIds s then s
                    else
                      (let parts = str_split CHR '':'' text
                       in if length parts \<ge> 3 \<and> toLowerCase (parts ! 0) = ''esp32'' then
                            (let clientID = parts ! 1;
                                 command = str_join '':'' (drop 2 parts)
                             in s\<lparr>sockets := unicast_loop clientID command (clients s) (sockets s)\<rparr>)
                          else
                            broadcast (JObj [(''from'', JStr chat), (''sender'', JStr sender),
                                             (''message'', JStr text)]) s)))"

section \<open>The event loop\<close>

text \<open>
  The events of the single-threaded loop: the four events of a connection's transport
  with the variables its handlers close over, the event that opens a connection, the two
  timers and a message of the operator channel.
\<close>

datatype event =
    Connection conn int
  | Message conn int string
  | Close conn
  | Error conn
  | Pong conn
  | ProbeTick
  | SweepTick int
  | Telegram "tg_message option"

fun step :: "(string \<Rightarrow> jsval option) \<Rightarrow> event \<Rightarrow> server_state \<Rightarrow> error + server_state" where
  "step parse (Connection c now) s = Inr (on_connection c now s)"
| "step parse (Message c now text) s = Inr (on_message parse c now text s)"
| "step parse (Close c) s = close_event c s"
| "step parse (Error c) s = Inr (error_event c s)"
| "step parse (Pong c) s = Inr (heartbeat c s)"
| "step parse ProbeTick s = Inr (probe_tick s)"
| "step parse (SweepTick now) s = sweep now s"
| "step parse (Telegram ev) s = Inr (on_telegram ev s)"

text \<open>A run stops at the first uncaught exception, which ends the process.\<close>

fun run :: "(string \<Rightarrow> jsval option) \<Rightarrow> event list \<Rightarrow> server_state \<Rightarrow> error + server_state" where
  "run parse [] s = Inr s"
| "run parse (e # es) s = (case step parse e s of Inl x \<Rightarrow> Inl x | Inr s1 \<Rightarrow> run parse es s1)"

section \<open>Well-formed states and example data\<close>

text \<open>
  The keys of a \<^verbatim>\<open>Map\<close> are distinct, and every connection has a transport object of
  its own.
\<close>

definition well_formed :: "server_state \<Rightarrow> bool" where
  "well_formed s \<longleftrightarrow> distinct (map fst (clients s)) \<and> distinct (map (\<lambda>e. ws (snd e)) (clients s))"

text \<open>The handlers \<open>c\<close> belong to the entry stored under their identifier, if there is one.\<close>

definition owns :: "server_state \<Rightarrow> conn \<Rightarrow> bool" where
  "owns s c \<longleftrightarrow>
     (case map_get (clients s) (clientId c) of None \<Rightarrow> True | Some d \<Rightarrow> ws d = conn_ws c)"

text \<open>
  Three devices: \<open>A\<close> last seen at time 0, \<open>B\<close> at 20000 and \<open>C\<close> at 25000; the
  transports of \<open>A\<close> and \<open>B\<close> are open, that of \<open>C\<close> is closing. The operator's chat
  is \<open>42\<close>.
\<close>

definition ex_entry :: "nat \<Rightarrow> string \<Rightarrow> string \<Rightarrow> int \<Rightarrow> client_data" where
  "ex_entry h addr descr t =
     \<lparr>ws = h, metadata = \<lparr>ip = JStr addr, location_device = JStr descr, lastSeen = t\<rparr>\<rparr>"

definition ex_socket :: "ready_state \<Rightarrow> jsval list \<Rightarrow> websocket" where
  "ex_socket r out = \<lparr>readyState = r, isAlive = True, sent = out\<rparr>"

definition ex_sockets :: sockets where
  "ex_sockets = (\<lambda>h. ex_socket (if h = 1 \<or> h = 2 then OPEN else CLOSING) [])"

definition ex_state :: server_state where
  "ex_state =
     \<lparr>clients = [(''A'', ex_entry 1 ''10.0.0.1'' ''lab'' 0),
                 (''B'', ex_entry 2 ''10.0.0.2'' ''hall'' 20000),
                 (''C'', ex_entry 3 ''10.0.0.3'' ''roof'' 25000)],
      sockets = ex_sockets,
      telegramSelfUser = Some ''me'',
      allowedChatIds = {''42''},
      telegramSent = []\<rparr>"

definition ex_conn :: "string \<Rightarrow> nat \<Rightarrow> string \<Rightarrow> conn" where
  "ex_conn k h addr = \<lparr>clientId = k, clientIP = JStr addr, conn_ws = h\<rparr>"

text \<open>\<^verbatim>\<open>JSON.parse\<close> on the four texts of the examples; any other text is taken as
  malformed.\<close>

definition ex_parse :: "string \<Rightarrow> jsval option" where
  \<open>ex_parse t =
     (if t = ''{"type":"heartbeat"}'' then Some (JObj [(''type'', JStr ''heartbeat'')])
      else if t = ''{"type":"connect","location_device":"gate"}''
        then Some (JObj [(''type'', JStr ''connect''), (''location_device'', JStr ''gate'')])
      else if t = ''{"type":"unknown"}'' then Some (JObj [(''type'', JStr ''unknown'')])
      else if t = ''{"type":"connect","ip":{"toString":1}}''
        then Some (JObj [(''type'', JStr ''connect''), (''ip'', JObj [(''toString'', JNum 1)])])
      else None)\<close>

definition ex_msg :: "string \<Rightarrow> string \<Rightarrow> tg_message" where
  "ex_msg chat t = \<lparr>chatId = Some chat, senderId = Some ''7'', message = t\<rparr>"

text \<open>
  Events in which the connection with identifier \<open>k\<close> neither registers nor sends a
  heartbeat: every event of another connection, of the timers and of the operator
  channel, and of the connection itself its pongs, its \<^verbatim>\<open>close\<close> and \<^verbatim>\<open>error\<close> events
  and its messages that are malformed or of another type. The identifier is not given
  to a second connection.
\<close>

fun no_liveness :: "(string \<Rightarrow> jsval option) \<Rightarrow> string \<Rightarrow> event \<Rightarrow> bool" where
  "no_liveness parse k (Connection c now) = (clientId c \<noteq> k)"
| "no_liveness parse k (Message c now text) =
     (clientId c \<noteq> k \<or>
      (case parse text of
         None \<Rightarrow> True
       | Some data \<Rightarrow> get_prop data ''type'' \<noteq> Inr (JStr ''connect'') \<and>
                      get_prop data ''type'' \<noteq> Inr (JStr ''heartbeat'')))"
| "no_liveness parse k e = True"

text \<open>
  A run from the start of the server: device \<open>A\<close> connects at time 0 and device \<open>B\<close> at
  1000; \<open>A\<close> registers at 2000 with an address that is an object with an own
  \<^verbatim>\<open>toString\<close> property; a probe tick follows, which \<open>B\<close> answers with a pong. \<open>B\<close>
  sends no message at all.
\<close>

definition ex_init :: server_state where
  "ex_init =
     \<lparr>clients = [],
      sockets = (\<lambda>h. ex_socket CLOSED []),
      telegramSelfUser = Some ''me'',
      allowedChatIds = {''42''},
      telegramSent = []\<rparr>"

definition ex_events :: "event list" where
  \<open>ex_events =
     [Connection (ex_conn ''A'' 1 ''10.0.0.1'') 0,
      Connection (ex_conn ''B'' 2 ''10.0.0.2'') 1000,
      Message (ex_conn ''A'' 1 ''10.0.0.1'') 2000 ''{"type":"connect","ip":{"toString":1}}'',
      ProbeTick,
      Pong (ex_conn ''B'' 2 ''10.0.0.2'')]\<close>

text \<open>
  What the environment guarantees of an event: a new connection comes with an
  identifier and a transport that the registry does not hold, and a message arrives at
  the handlers of the connection that owns the entry.
\<close>

fun event_ok :: "server_state \<Rightarrow> event \<Rightarrow> bool" where
  "event_ok s (Connection c now) =
     (clientId c \<notin> set (map fst (clients s)) \<and>
      conn_ws c \<notin> set (map (\<lambda>e. ws (snd e)) (clients s)))"
| "event_ok s (Message c now text) = owns s c"
| "event_ok s e = True"

section \<open>Facts about the Map and the loops\<close>

lemma map_get_map_set: "map_get (map_set k v m) k' = (if k' = k then Some v else map_get m k')"
  by (induction m) (auto simp: map_get_def)

lemma map_fst_map_set:
  "map_get m k = Some d \<Longrightarrow> map fst (map_set k v m) = map fst m"
  by (induction m) (auto simp: map_get_def split: if_splits)

lemma map_get_map_delete:
  "map_get (map_delete k m) k' = (if k' = k then None else map_get m k')"
  by (induction m) (auto simp: map_get_def map_delete_def)

lemma map_get_in_set: "map_get m k = Some d \<Longrightarrow> (k, d) \<in> set m"
  by (simp add: map_get_def map_of_SomeD)

lemma terminate_not_open: "readyState (terminate h socks h) \<in> {CLOSING, CLOSED}"
  by (simp add: terminate_def)

lemma printable_or_else: "printable a \<Longrightarrow> printable (or_else a (JStr b))"
  by (simp add: or_else_def)

text \<open>The sweep completes when the address of every overdue entry can be logged.\<close>

lemma sweep_loop_total:
  "\<forall>e\<in>set m. now - lastSeen (metadata (snd e)) > 30000 \<longrightarrow> printable (ip (metadata (snd e))) \<Longrightarrow>
   \<exists>socks'. sweep_loop now m socks = Inr socks'"
  by (induction m arbitrary: socks) auto

text \<open>A completed sweep has terminated exactly the transports of the overdue entries.\<close>

lemma sweep_loop_char:
  "sweep_loop now m socks = Inr socks' \<Longrightarrow>
   socks' h =
     (if \<exists>e\<in>set m. now - lastSeen (metadata (snd e)) > 30000 \<and> ws (snd e) = h
      then terminate h socks h else socks h)"
proof (induction m arbitrary: socks)
  case Nil
  then show ?case by simp
next
  case (Cons e m)
  obtain k d where e: "e = (k, d)" by (cases e)
  show ?case
  proof (cases "now - lastSeen (metadata d) > 30000")
    case True
    with Cons.prems e have r: "sweep_loop now m (terminate (ws d) socks) = Inr socks'"
      by (auto split: if_splits)
    show ?thesis
      using Cons.IH [OF r] True e by (auto simp: terminate_def)
  next
    case False
    with Cons.prems e have r: "sweep_loop now m socks = Inr socks'"
      by simp
    show ?thesis
      using Cons.IH [OF r] False e by auto
  qed
qed

lemma close_event_removes:
  assumes "\<forall>d. map_get (clients s) (clientId c) = Some d \<longrightarrow> printable (ip (metadata d))"
  shows "close_event c s =
     Inr (s\<lparr>clients := map_delete (clientId c) (clients s),
            sockets := (sockets s)(conn_ws c := (sockets s (conn_ws c))\<lparr>readyState := CLOSED\<rparr>)\<rparr>)"
  using assms
  by (auto simp: close_event_def on_close_def Let_def printable_or_else split: option.splits)

lemma str_split_not_Nil: "str_split sep s \<noteq> []"
  by (induction s) auto

lemma str_split_append:
  "sep \<notin> set a \<Longrightarrow> str_split sep (a @ sep # b) = a # str_split sep b"
  by (induction a) auto

lemma str_join_Cons:
  "ps \<noteq> [] \<Longrightarrow> str_join sep (p # ps) = p @ sep @ str_join sep ps"
  by (cases ps) auto

lemma str_join_split: "str_join [sep] (str_split sep s) = s"
proof (induction s)
  case Nil
  show ?case by simp
next
  case (Cons c cs)
  obtain p ps where ps: "str_split sep cs = p # ps"
    using str_split_not_Nil [of sep cs] by (cases "str_split sep cs") auto
  show ?case
  proof (cases "c = sep")
    case True
    then show ?thesis using Cons.IH ps by (simp add: str_join_Cons)
  next
    case False
    then show ?thesis using Cons.IH ps by (cases ps) auto
  qed
qed

lemma esp32_no_colon: "toLowerCase tag = ''esp32'' \<Longrightarrow> CHR '':'' \<notin> set tag"
proof
  assume t: "toLowerCase tag = ''esp32''" and c: "CHR '':'' \<in> set tag"
  have "lower_char CHR '':'' = CHR '':''"
    by (simp add: lower_char_def)
  with c have "CHR '':'' \<in> set (toLowerCase tag)"
    by (force simp: toLowerCase_def)
  with t show False by simp
qed

lemma unicast_loop_absent:
  "map_of m k = None \<Longrightarrow> unicast_loop k cmd m socks = socks"
  by (induction m arbitrary: socks) (auto split: if_splits)

lemma unicast_loop_present:
  "distinct (map fst m) \<Longrightarrow> map_of m k = Some d \<Longrightarrow>
   unicast_loop k cmd m socks =
     (if readyState (socks (ws d)) = OPEN
      then ws_send (ws d) (JObj [(''clientID'', JStr k), (''message'', JStr cmd)]) socks
      else socks)"
proof (induction m arbitrary: socks)
  case Nil
  then show ?case by simp
next
  case (Cons e m)
  obtain k' d' where e: "e = (k', d')" by (cases e)
  show ?case
  proof (cases "k' = k")
    case True
    with Cons.prems e have "d' = d" and "map_of m k = None"
      by (auto simp: map_of_eq_None_iff)
    then show ?thesis using e True by (simp add: unicast_loop_absent)
  next
    case False
    with Cons e show ?thesis by simp
  qed
qed

lemma parts_of_command:
  assumes "toLowerCase tag = ''esp32''" and "CHR '':'' \<notin> set ident"
  shows "str_split CHR '':'' (tag @ '':'' @ ident @ '':'' @ cmd) =
           tag # ident # str_split CHR '':'' cmd"
  using assms esp32_no_colon [of tag] by (simp add: str_split_append)

text \<open>Every text with at least three parts is of the form \<open>tag:ident:cmd\<close>, the identifier
  without a colon and the command the remaining parts joined again.\<close>

lemma str_split_no_sep: "p \<in> set (str_split sep s) \<Longrightarrow> sep \<notin> set p"
proof (induction s arbitrary: p)
  case Nil
  then show ?case by simp
next
  case (Cons c cs)
  obtain q qs where qs: "str_split sep cs = q # qs"
    using str_split_not_Nil [of sep cs] by (cases "str_split sep cs") auto
  with Cons show ?case
    by (cases "c = sep") auto
qed

lemma three_parts:
  "length xs \<ge> 3 \<Longrightarrow> \<exists>a b c rest. xs = a # b # c # rest"
proof -
  assume l: "length xs \<ge> 3"
  then obtain a ys where xs: "xs = a # ys" by (cases xs) auto
  with l obtain b zs where ys: "ys = b # zs" by (cases ys) auto
  with l xs obtain c rest where zs: "zs = c # rest" by (cases zs) auto
  from xs ys zs show ?thesis by blast
qed

lemma command_form:
  assumes "length (str_split sep s) \<ge> 3"
  shows "s = (str_split sep s ! 0) @ [sep] @ (str_split sep s ! 1) @ [sep] @
               str_join [sep] (drop 2 (str_split sep s)) \<and>
         sep \<notin> set (str_split sep s ! 1)"
proof -
  from three_parts [OF assms] obtain a b c rest where parts: "str_split sep s = a # b # c # rest"
    by blast
  have "b \<in> set (str_split sep s)"
    using parts by simp
  then have "sep \<notin> set b"
    by (rule str_split_no_sep)
  moreover have "s = str_join [sep] (str_split sep s)"
    by (simp add: str_join_split)
  ultimately show ?thesis
    using parts by simp
qed

text \<open>A broadcast appends the data to the open transports of the registry, once each.\<close>

lemma broadcast_loop_char:
  "distinct (map (\<lambda>e. ws (snd e)) m) \<Longrightarrow>
   broadcast_loop data m socks h =
     (if (\<exists>e\<in>set m. ws (snd e) = h) \<and> readyState (socks h) = OPEN
      then (socks h)\<lparr>sent := sent (socks h) @ [data]\<rparr> else socks h)"
proof (induction m arbitrary: socks)
  case Nil
  then show ?case by simp
next
  case (Cons e m)
  obtain k d where e: "e = (k, d)" by (cases e)
  from Cons.prems e have rest: "distinct (map (\<lambda>e. ws (snd e)) m)"
    by simp
  from Cons.prems e have "ws d \<notin> (\<lambda>e. ws (snd e)) ` set m"
    by simp
  then have fresh: "\<forall>e'\<in>set m. ws (snd e') \<noteq> ws d"
    by force
  show ?case
    using Cons.IH [OF rest] fresh e by (auto simp: ws_send_def)
qed

text \<open>
  Events without a registration or heartbeat of a connection leave its entry as it is,
  or remove it.
\<close>

lemma quiet_step:
  assumes "no_liveness parse k e" and "step parse e s = Inr s1"
  shows "map_get (clients s1) k = map_get (clients s) k \<or> map_get (clients s1) k = None"
proof (cases e)
  case (Connection c now)
  with assms show ?thesis
    by (auto simp: on_connection_def Let_def map_get_map_set)
next
  case (Message c now raw)
  show ?thesis
  proof (cases "clientId c = k")
    case True
    with assms Message have "on_message parse c now raw s = s"
      by (auto simp: on_message_def split: option.splits sum.splits)
    with assms Message show ?thesis by simp
  next
    case False
    have "map_get (clients (on_message parse c now raw s)) k = map_get (clients s) k"
      using False
      by (auto simp: on_message_def Let_def map_get_map_set split: option.splits sum.splits)
    with assms Message show ?thesis by auto
  qed
next
  case (Close c)
  with assms show ?thesis
    by (auto simp: close_event_def on_close_def Let_def map_get_map_delete split: if_splits)
next
  case (SweepTick now)
  with assms show ?thesis
    by (auto simp: sweep_def split: sum.splits)
qed (use assms in \<open>auto simp: error_event_def on_error_def heartbeat_def probe_tick_def
       broadcast_def on_telegram_def Let_def split: option.splits if_splits\<close>)

lemma quiet_run:
  "list_all (no_liveness parse k) evs \<Longrightarrow> run parse evs s = Inr s1 \<Longrightarrow>
   map_get (clients s1) k = map_get (clients s) k \<or> map_get (clients s1) k = None"
proof (induction evs arbitrary: s)
  case Nil
  then show ?case by simp
next
  case (Cons e evs)
  from Cons.prems obtain s' where e: "step parse e s = Inr s'" and r: "run parse evs s' = Inr s1"
    by (auto split: sum.splits)
  from Cons.prems have q: "no_liveness parse k e" and qs: "list_all (no_liveness parse k) evs"
    by simp_all
  from quiet_step [OF q e] Cons.IH [OF qs r] show ?case
    by auto
qed

text \<open>An overdue entry: the sweep terminates its transport and keeps the registry.\<close>

lemma sweep_terminates:
  assumes entry: "map_get (clients s) k = Some d"
    and stale: "now - lastSeen (metadata d) > 30000"
    and logs: "\<forall>e\<in>set (clients s).
                 now - lastSeen (metadata (snd e)) > 30000 \<longrightarrow> printable (ip (metadata (snd e)))"
  shows "\<exists>s1. sweep now s = Inr s1 \<and> clients s1 = clients s \<and>
           readyState (sockets s1 (ws d)) \<in> {CLOSING, CLOSED}"
proof -
  from sweep_loop_total [OF logs] obtain socks' where
    l: "sweep_loop now (clients s) (sockets s) = Inr socks'"
    by blast
  have "(k, d) \<in> set (clients s)"
    using entry by (rule map_get_in_set)
  with stale have "\<exists>e\<in>set (clients s). now - lastSeen (metadata (snd e)) > 30000 \<and> ws (snd e) = ws d"
    by force
  with sweep_loop_char [OF l, of "ws d"] have "socks' (ws d) = terminate (ws d) (sockets s) (ws d)"
    by simp
  then have "readyState (socks' (ws d)) \<in> {CLOSING, CLOSED}"
    using terminate_not_open [of "ws d" "sockets s"] by simp
  with l show ?thesis
    by (simp add: sweep_def)
qed

text \<open>Every step keeps a well-formed state well-formed.\<close>

lemma map_set_absent: "k \<notin> set (map fst m) \<Longrightarrow> map_set k v m = m @ [(k, v)]"
  by (induction m) auto

lemma map_ws_map_set:
  "map_get m k = Some d \<Longrightarrow> ws v = ws d \<Longrightarrow>
   map (\<lambda>e. ws (snd e)) (map_set k v m) = map (\<lambda>e. ws (snd e)) m"
  by (induction m) (auto simp: map_get_def split: if_splits)

lemma wf_map_set:
  "well_formed s \<Longrightarrow> map_get (clients s) k = Some d \<Longrightarrow> ws v = ws d \<Longrightarrow>
   well_formed (s\<lparr>clients := map_set k v (clients s)\<rparr>)"
  by (simp add: well_formed_def map_fst_map_set map_ws_map_set)

lemma wf_on_connection:
  assumes "well_formed s" and "event_ok s (Connection c now)"
  shows "well_formed (on_connection c now s)"
  using assms by (simp add: well_formed_def on_connection_def Let_def map_set_absent)

lemma wf_on_message:
  assumes "well_formed s" and "owns s c"
  shows "well_formed (on_message parse c now raw s)"
proof (cases "map_get (clients s) (clientId c)")
  case None
  then show ?thesis
    using assms by (simp add: on_message_def split: option.splits)
next
  case (Some d)
  with assms have own: "ws d = conn_ws c"
    by (simp add: owns_def)
  have a: "\<And>md. well_formed (s\<lparr>clients := map_set (clientId c) \<lparr>ws = conn_ws c, metadata = md\<rparr> (clients s)\<rparr>)"
    using wf_map_set [OF assms(1) Some] own by simp
  have b: "\<And>md. well_formed (s\<lparr>clients := map_set (clientId c) (d\<lparr>metadata := md\<rparr>) (clients s)\<rparr>)"
    using wf_map_set [OF assms(1) Some] by simp
  have frame: "\<And>s1 x. well_formed s1 \<Longrightarrow> well_formed (s1\<lparr>telegramSent := x\<rparr>)"
    by (simp add: well_formed_def)
  show ?thesis
    using Some assms(1) a b frame
    by (auto simp: on_message_def Let_def split: option.splits sum.splits)
qed

lemma wf_map_delete: "well_formed s \<Longrightarrow> well_formed (s\<lparr>sockets := x, clients := map_delete k (clients s)\<rparr>)"
  by (simp add: well_formed_def map_delete_def distinct_map_filter)

lemma step_preserves_wf:
  assumes "well_formed s" and "event_ok s e" and "step parse e s = Inr s1"
  shows "well_formed s1"
proof (cases e)
  case (Connection c now)
  with assms wf_on_connection show ?thesis by auto
next
  case (Message c now raw)
  with assms wf_on_message show ?thesis by auto
next
  case (Close c)
  with assms wf_map_delete show ?thesis
    by (auto simp: close_event_def on_close_def Let_def split: if_splits)
next
  case (SweepTick now)
  with assms show ?thesis
    by (auto simp: sweep_def well_formed_def split: sum.splits)
qed (use assms in \<open>auto simp: well_formed_def error_event_def on_error_def heartbeat_def probe_tick_def broadcast_def
       on_telegram_def Let_def split: option.splits if_splits\<close>)

text \<open>
  When a log line raises: a registration stores whatever truthy value the device sends
  as its address; if that value does not convert to a string, the \<^verbatim>\<open>close\<close> handler
  raises before it deletes the entry, and the sweep raises at the entry once it is
  overdue.
\<close>

lemma sweep_loop_raises:
  "\<exists>e\<in>set m. now - lastSeen (metadata (snd e)) > 30000 \<and> \<not> printable (ip (metadata (snd e))) \<Longrightarrow>
   sweep_loop now m socks = Inl TypeError"
proof (induction m arbitrary: socks)
  case Nil
  then show ?case by simp
next
  case (Cons e m)
  obtain k d where e: "e = (k, d)" by (cases e)
  show ?case
  proof (cases "now - lastSeen (metadata d) > 30000 \<and> \<not> printable (ip (metadata d))")
    case True
    with e show ?thesis by simp
  next
    case False
    with Cons.prems e have
      "\<exists>e\<in>set m. now - lastSeen (metadata (snd e)) > 30000 \<and> \<not> printable (ip (metadata (snd e)))"
      by auto
    from Cons.IH [OF this] e show ?thesis by simp
  qed
qed

lemma on_close_raises:
  "map_get (clients s) (clientId c) = Some d \<Longrightarrow> \<not> printable (ip (metadata d)) \<Longrightarrow>
   on_close c s = Inl TypeError"
  by (cases "ip (metadata d)") (auto simp: on_close_def or_else_def)

lemma connect_stores_any_address:
  assumes "parse raw = Some (JObj kvs)"
    and "map_of kvs ''type'' = Some (JStr ''connect'')"
    and "map_of kvs ''ip'' = Some v" and "truthy v"
    and "map_get (clients s) (clientId c) = Some d"
  shows "map_option (\<lambda>d'. ip (metadata d'))
           (map_get (clients (on_message parse c now raw s)) (clientId c)) = Some v"
  using assms
  by (auto simp: on_message_def Let_def field_def or_else_def map_get_map_set split: option.splits)

text \<open>
  A \<^verbatim>\<open>pong\<close> changes the \<^verbatim>\<open>isAlive\<close> flag of its transport and nothing else.
\<close>

lemma pong_sets_isAlive_only:
  "isAlive (sockets (heartbeat c s) (conn_ws c)) \<and>
   clients (heartbeat c s) = clients s \<and>
   telegramSent (heartbeat c s) = telegramSent s \<and>
   (\<forall>h. readyState (sockets (heartbeat c s) h) = readyState (sockets s h) \<and>
        sent (sockets (heartbeat c s) h) = sent (sockets s h)) \<and>
   (\<forall>h. h \<noteq> conn_ws c \<longrightarrow> sockets (heartbeat c s) h = sockets s h)"
  by (simp add: heartbeat_def)

text \<open>
  A connection that neither registers nor sends a heartbeat during a run that does
  not raise has, after the run, its entry as before or none; a sweep later than 30000
  ms after its \<^verbatim>\<open>lastSeen\<close> that completes terminates the transport, and the \<^verbatim>\<open>close\<close>
  event removes the entry.
\<close>

lemma quiet_device_evicted:
  assumes quiet: "list_all (no_liveness parse (clientId c)) evs"
    and ran: "run parse evs s = Inr s1"
    and entry: "map_get (clients s) (clientId c) = Some d"
    and own: "ws d = conn_ws c"
    and stale: "now - lastSeen (metadata d) > 30000"
    and swept: "sweep now s1 = Inr s2"
  shows "map_get (clients s1) (clientId c) = None \<or>
         (map_get (clients s1) (clientId c) = Some d \<and>
          readyState (sockets s2 (ws d)) \<in> {CLOSING, CLOSED} \<and>
          (\<exists>s3. close_event c s2 = Inr s3 \<and> map_get (clients s3) (clientId c) = None))"
proof (cases "map_get (clients s1) (clientId c)")
  case None
  then show ?thesis by simp
next
  case (Some d')
  with quiet_run [OF quiet ran] entry have entry1: "map_get (clients s1) (clientId c) = Some d"
    by auto
  from swept obtain socks' where
    l: "sweep_loop now (clients s1) (sockets s1) = Inr socks'" and s2: "s2 = s1\<lparr>sockets := socks'\<rparr>"
    by (auto simp: sweep_def split: sum.splits)
  have mem: "(clientId c, d) \<in> set (clients s1)"
    using entry1 by (rule map_get_in_set)
  have pr: "printable (ip (metadata d))"
  proof (rule ccontr)
    assume "\<not> printable (ip (metadata d))"
    with mem stale have
      "\<exists>e\<in>set (clients s1). now - lastSeen (metadata (snd e)) > 30000 \<and>
         \<not> printable (ip (metadata (snd e)))"
      by force
    from sweep_loop_raises [OF this] l show False by simp
  qed
  from mem stale have
    "\<exists>e\<in>set (clients s1). now - lastSeen (metadata (snd e)) > 30000 \<and> ws (snd e) = ws d"
    by force
  with sweep_loop_char [OF l, of "ws d"] have "socks' (ws d) = terminate (ws d) (sockets s1) (ws d)"
    by simp
  then have dead: "readyState (sockets s2 (ws d)) \<in> {CLOSING, CLOSED}"
    using terminate_not_open [of "ws d" "sockets s1"] by (simp add: s2)
  have "\<forall>d'. map_get (clients s2) (clientId c) = Some d' \<longrightarrow> printable (ip (metadata d'))"
    using entry1 pr by (simp add: s2)
  from close_event_removes [OF this] have
    "\<exists>s3. close_event c s2 = Inr s3 \<and> map_get (clients s3) (clientId c) = None"
    by (simp add: map_get_map_delete)
  with entry1 dead show ?thesis by simp
qed

section \<open>The claims\<close>

text \<open>
  C1, as amended. For a connection whose entry is older than 30000 ms at the sweep, the
  sweep callback (which completes when the address of every overdue entry can be logged,
  as every string can) terminates the transport, which is then closing or closed, and
  leaves the registry as it was; the entry is removed when the \<^verbatim>\<open>close\<close> event of the
  transport is handled, after which the transport is closed and the identifier is not in
  the registry.
\<close>

theorem sweep_terminates_close_removes:
  assumes entry: "map_get (clients s) (clientId c) = Some d"
    and own: "ws d = conn_ws c"
    and stale: "now - lastSeen (metadata d) > 30000"
    and logs: "\<forall>e\<in>set (clients s).
                 now - lastSeen (metadata (snd e)) > 30000 \<longrightarrow> printable (ip (metadata (snd e)))"
  shows "\<exists>s1 s2. sweep now s = Inr s1 \<and> clients s1 = clients s \<and>
           readyState (sockets s1 (ws d)) \<in> {CLOSING, CLOSED} \<and>
           close_event c s1 = Inr s2 \<and>
           map_get (clients s2) (clientId c) = None \<and>
           readyState (sockets s2 (ws d)) = CLOSED"
proof -
  from sweep_terminates [OF entry stale logs] obtain s1 where
    sw: "sweep now s = Inr s1" and reg: "clients s1 = clients s"
    and dead: "readyState (sockets s1 (ws d)) \<in> {CLOSING, CLOSED}"
    by blast
  have "printable (ip (metadata d))"
    using stale logs map_get_in_set [OF entry] by force
  then have "\<forall>d'. map_get (clients s1) (clientId c) = Some d' \<longrightarrow> printable (ip (metadata d'))"
    using entry reg by simp
  from close_event_removes [OF this] obtain s2 where
    cl: "close_event c s1 = Inr s2"
    and s2: "s2 = s1\<lparr>clients := map_delete (clientId c) (clients s1),
            sockets := (sockets s1)(conn_ws c := (sockets s1 (conn_ws c))\<lparr>readyState := CLOSED\<rparr>)\<rparr>"
    by blast
  have "map_get (clients s2) (clientId c) = None \<and> readyState (sockets s2 (ws d)) = CLOSED"
    using own by (simp add: s2 map_get_map_delete)
  with sw reg dead cl show ?thesis
    by blast
qed

theorem sweep_terminates_close_removes_witness:
  "\<exists>s1 s2. sweep 40000 ex_state = Inr s1 \<and> clients s1 = clients ex_state \<and>
     readyState (sockets s1 1) \<in> {CLOSING, CLOSED} \<and>
     close_event (ex_conn ''A'' 1 ''10.0.0.1'') s1 = Inr s2 \<and>
     map_get (clients s2) ''A'' = None \<and>
     readyState (sockets s2 1) = CLOSED"
proof -
  have entry: "map_get (clients ex_state) (clientId (ex_conn ''A'' 1 ''10.0.0.1'')) =
      Some (ex_entry 1 ''10.0.0.1'' ''lab'' 0)"
    by (simp add: ex_state_def ex_conn_def map_get_def)
  have own: "ws (ex_entry 1 ''10.0.0.1'' ''lab'' 0) = conn_ws (ex_conn ''A'' 1 ''10.0.0.1'')"
    by (simp add: ex_entry_def ex_conn_def)
  have stale: "40000 - lastSeen (metadata (ex_entry 1 ''10.0.0.1'' ''lab'' 0)) > 30000"
    by (simp add: ex_entry_def)
  have logs: "\<forall>e\<in>set (clients ex_state).
      40000 - lastSeen (metadata (snd e)) > 30000 \<longrightarrow> printable (ip (metadata (snd e)))"
    by (simp add: ex_state_def ex_entry_def)
  from sweep_terminates_close_removes [OF entry own stale logs] show ?thesis
    by (simp add: ex_entry_def ex_conn_def)
qed

text \<open>
  C1 as stated fails: device \<open>A\<close>, last seen at 0, is overdue at 40000; the state the
  sweep callback leaves has the transport of \<open>A\<close> terminated and the entry of \<open>A\<close>
  still in the registry.
\<close>

theorem sweep_keeps_entry:
  "sweep 40000 ex_state = Inr (ex_state\<lparr>sockets := terminate 1 ex_sockets\<rparr>) \<and>
   map_get (clients (ex_state\<lparr>sockets := terminate 1 ex_sockets\<rparr>)) ''A'' =
     Some (ex_entry 1 ''10.0.0.1'' ''lab'' 0)"
  by (simp add: sweep_def ex_state_def ex_entry_def map_get_def)

text \<open>
  C2, as amended. An accepted operator message \<open>tag:ident:cmd\<close>, whose tag is \<^verbatim>\<open>esp32\<close> in any
  case and whose identifier has no colon (so that the text has at least three parts,
  \<open>ident\<close> is the second and \<open>cmd\<close> the remaining ones joined with colons), changes the
  state in one place at most: when the registry has an entry for \<open>ident\<close> and its
  transport is open, the payload with the identifier (key \<^verbatim>\<open>clientID\<close> in the source) and
  the command (key \<^verbatim>\<open>message\<close>) is appended to what has been sent on that transport;
  when there is no such entry or its transport is not open, nothing is sent on any
  transport.
\<close>

theorem point_to_point_delivery:
  assumes form: "message msg = tag @ '':'' @ ident @ '':'' @ cmd"
    and tag: "toLowerCase tag = ''esp32''"
    and ident: "CHR '':'' \<notin> set ident"
    and chat: "chatId msg = Some chat" "chat \<in> allowedChatIds s"
    and keys: "distinct (map fst (clients s))"
  shows "on_telegram (Some msg) s =
           (case map_get (clients s) ident of
              None \<Rightarrow> s
            | Some d \<Rightarrow>
                if readyState (sockets s (ws d)) = OPEN
                then s\<lparr>sockets := (sockets s)
                       (ws d := (sockets s (ws d))
                          \<lparr>sent := sent (sockets s (ws d)) @
                             [JObj [(''clientID'', JStr ident), (''message'', JStr cmd)]]\<rparr>)\<rparr>
                else s)"
proof -
  let ?parts = "str_split CHR '':'' (message msg)"
  have parts: "?parts = tag # ident # str_split CHR '':'' cmd"
    using form parts_of_command [OF tag ident] by simp
  obtain p ps where rest: "str_split CHR '':'' cmd = p # ps"
    using str_split_not_Nil [of "CHR '':''" cmd] by (cases "str_split CHR '':'' cmd") auto
  have len: "length ?parts \<ge> 3"
    using parts rest by simp
  have cmd: "str_join '':'' (drop 2 ?parts) = cmd"
    using parts str_join_split [of "CHR '':''" cmd] by simp
  have nonempty: "message msg \<noteq> []"
    using form by simp
  have step: "on_telegram (Some msg) s =
      s\<lparr>sockets := unicast_loop ident cmd (clients s) (sockets s)\<rparr>"
    using nonempty chat len tag cmd parts
    by (simp add: on_telegram_def Let_def)
  show ?thesis
  proof (cases "map_get (clients s) ident")
    case None
    then show ?thesis
      using step by (simp add: map_get_def unicast_loop_absent)
  next
    case (Some d)
    then show ?thesis
      using step keys by (simp add: map_get_def unicast_loop_present ws_send_def)
  qed
qed

theorem point_to_point_delivery_witness:
  "on_telegram (Some (ex_msg ''42'' ''Esp32:A:reboot:now'')) ex_state =
     ex_state\<lparr>sockets := ex_sockets
       (1 := ex_socket OPEN [JObj [(''clientID'', JStr ''A''), (''message'', JStr ''reboot:now'')]])\<rparr>"
proof -
  have form: "message (ex_msg ''42'' ''Esp32:A:reboot:now'') = ''Esp32'' @ '':'' @ ''A'' @ '':'' @ ''reboot:now''"
    by (simp add: ex_msg_def)
  have tag: "toLowerCase ''Esp32'' = ''esp32''"
    by code_simp
  have ident: "CHR '':'' \<notin> set ''A''"
    by simp
  have chat: "chatId (ex_msg ''42'' ''Esp32:A:reboot:now'') = Some ''42''" "''42'' \<in> allowedChatIds ex_state"
    by (simp_all add: ex_msg_def ex_state_def)
  have keys: "distinct (map fst (clients ex_state))"
    by (simp add: ex_state_def)
  from point_to_point_delivery [OF form tag ident chat keys] show ?thesis
    by (simp add: ex_state_def map_get_def ex_entry_def ex_sockets_def ex_socket_def)
qed

text \<open>
  C2 as stated fails in the payload: for the operator message \<^verbatim>\<open>esp32:A:reboot\<close> device
  \<open>A\<close> is sent the record with the keys \<^verbatim>\<open>clientID\<close> and \<^verbatim>\<open>message\<close>, which is not the
  record with the keys \<^verbatim>\<open>id\<close> and \<^verbatim>\<open>message\<close>; device \<open>B\<close> is sent nothing.
\<close>

theorem payload_key_is_clientID:
  "sent (sockets (on_telegram (Some (ex_msg ''42'' ''esp32:A:reboot'')) ex_state) 1) =
     [JObj [(''clientID'', JStr ''A''), (''message'', JStr ''reboot'')]] \<and>
   sent (sockets (on_telegram (Some (ex_msg ''42'' ''esp32:A:reboot'')) ex_state) 1) \<noteq>
     [JObj [(''id'', JStr ''A''), (''message'', JStr ''reboot'')]] \<and>
   sent (sockets (on_telegram (Some (ex_msg ''42'' ''esp32:A:reboot'')) ex_state) 2) = []"
proof -
  have tag: "toLowerCase ''esp32'' = ''esp32''"
    by code_simp
  have "on_telegram (Some (ex_msg ''42'' ''esp32:A:reboot'')) ex_state =
      ex_state\<lparr>sockets := unicast_loop ''A'' ''reboot'' (clients ex_state) (sockets ex_state)\<rparr>"
    using tag by (simp add: on_telegram_def ex_msg_def ex_state_def Let_def)
  then show ?thesis
    by (simp add: ex_state_def ex_entry_def ex_sockets_def ex_socket_def ws_send_def)
qed

text \<open>
  C3, as amended. An accepted operator message with a non-empty text that is not a
  point-to-point command (fewer than three parts, or a first part other than \<^verbatim>\<open>esp32\<close>)
  appends the envelope with the chat identifier (\<^verbatim>\<open>from\<close>), the sender identifier
  (\<^verbatim>\<open>sender\<close>, or \<^verbatim>\<open>"unknown"\<close>) and the text (\<^verbatim>\<open>message\<close>) to what has been sent on
  every transport of the registry that is open, once each, and leaves every other
  transport, the registry and the operator outbox as they were.
\<close>

theorem broadcast_delivery:
  assumes body: "message msg \<noteq> []"
    and chat: "chatId msg = Some chat" "chat \<in> allowedChatIds s"
    and plain: "\<not> (length (str_split CHR '':'' (message msg)) \<ge> 3 \<and>
                  toLowerCase (str_split CHR '':'' (message msg) ! 0) = ''esp32'')"
    and handles: "distinct (map (\<lambda>e. ws (snd e)) (clients s))"
  shows "clients (on_telegram (Some msg) s) = clients s \<and>
         telegramSent (on_telegram (Some msg) s) = telegramSent s \<and>
         (\<forall>h. sockets (on_telegram (Some msg) s) h =
            (if (\<exists>e\<in>set (clients s). ws (snd e) = h) \<and> readyState (sockets s h) = OPEN
             then (sockets s h)\<lparr>sent := sent (sockets s h) @
                    [JObj [(''from'', JStr chat), (''sender'', JStr (sender_of msg)),
                           (''message'', JStr (message msg))]]\<rparr>
             else sockets s h))"
proof -
  have "on_telegram (Some msg) s =
      broadcast (JObj [(''from'', JStr chat), (''sender'', JStr (sender_of msg)),
                       (''message'', JStr (message msg))]) s"
    using body chat plain by (auto simp: on_telegram_def Let_def)
  then show ?thesis
    using broadcast_loop_char [OF handles] by (simp add: broadcast_def)
qed

theorem broadcast_delivery_witness:
  "sent (sockets (on_telegram (Some (ex_msg ''42'' ''hello'')) ex_state) 1) =
     [JObj [(''from'', JStr ''42''), (''sender'', JStr ''7''), (''message'', JStr ''hello'')]] \<and>
   sent (sockets (on_telegram (Some (ex_msg ''42'' ''hello'')) ex_state) 2) =
     [JObj [(''from'', JStr ''42''), (''sender'', JStr ''7''), (''message'', JStr ''hello'')]] \<and>
   sent (sockets (on_telegram (Some (ex_msg ''42'' ''hello'')) ex_state) 3) = []"
proof -
  have body: "message (ex_msg ''42'' ''hello'') \<noteq> []"
    by (simp add: ex_msg_def)
  have chat: "chatId (ex_msg ''42'' ''hello'') = Some ''42''" "''42'' \<in> allowedChatIds ex_state"
    by (simp_all add: ex_msg_def ex_state_def)
  have plain: "\<not> (length (str_split CHR '':'' (message (ex_msg ''42'' ''hello''))) \<ge> 3 \<and>
      toLowerCase (str_split CHR '':'' (message (ex_msg ''42'' ''hello'')) ! 0) = ''esp32'')"
    by (simp add: ex_msg_def)
  have handles: "distinct (map (\<lambda>e. ws (snd e)) (clients ex_state))"
    by (simp add: ex_state_def ex_entry_def)
  from broadcast_delivery [OF body chat plain handles] show ?thesis
    by (simp add: ex_state_def ex_entry_def ex_sockets_def ex_socket_def ex_msg_def sender_of_def)
qed

text \<open>
  C3 as stated fails: a message from the accepted chat \<open>42\<close> with an empty text has
  fewer than three parts, yet the handler returns at its first test and the open
  transport of device \<open>A\<close> is sent nothing.
\<close>

theorem empty_text_not_broadcast:
  "''42'' \<in> allowedChatIds ex_state \<and>
   readyState (sockets ex_state 1) = OPEN \<and>
   map_get (clients ex_state) ''A'' = Some (ex_entry 1 ''10.0.0.1'' ''lab'' 0) \<and>
   on_telegram (Some (ex_msg ''42'' [])) ex_state = ex_state \<and>
   sent (sockets ex_state 1) = []"
  by (simp add: on_telegram_def ex_msg_def ex_state_def ex_sockets_def ex_socket_def map_get_def)

text \<open>
  C4. For a registered connection, a message that parses to a value whose \<^verbatim>\<open>type\<close> is
  \<^verbatim>\<open>"heartbeat"\<close> changes the state in the entry's \<^verbatim>\<open>lastSeen\<close> only: the entry has the
  time of receipt, its transport, address (\<^verbatim>\<open>ip\<close>) and label (\<^verbatim>\<open>location_device\<close>) as
  before; every other entry, the order of the registry, the transports and what has been
  sent to the operator are unchanged.
\<close>

theorem heartbeat_updates_lastSeen_only:
  assumes "parse text = Some data"
    and "get_prop data ''type'' = Inr (JStr ''heartbeat'')"
    and "map_get (clients s) (clientId c) = Some d"
  shows "map_get (clients (on_message parse c now text s)) (clientId c) =
           Some \<lparr>ws = ws d,
                 metadata = \<lparr>ip = ip (metadata d), location_device = location_device (metadata d),
                             lastSeen = now\<rparr>\<rparr> \<and>
         (\<forall>k. k \<noteq> clientId c \<longrightarrow>
           map_get (clients (on_message parse c now text s)) k = map_get (clients s) k) \<and>
         map fst (clients (on_message parse c now text s)) = map fst (clients s) \<and>
         telegramSent (on_message parse c now text s) = telegramSent s \<and>
         sockets (on_message parse c now text s) = sockets s \<and>
         telegramSelfUser (on_message parse c now text s) = telegramSelfUser s \<and>
         allowedChatIds (on_message parse c now text s) = allowedChatIds s"
  using assms by (auto simp: on_message_def map_get_map_set map_fst_map_set)

theorem heartbeat_updates_lastSeen_only_witness:
  \<open>map_get (clients (on_message ex_parse (ex_conn ''A'' 1 ''10.0.0.1'') 31000
       ''{"type":"heartbeat"}'' ex_state)) ''A'' =
     Some (ex_entry 1 ''10.0.0.1'' ''lab'' 31000) \<and>
   map_get (clients (on_message ex_parse (ex_conn ''A'' 1 ''10.0.0.1'') 31000
       ''{"type":"heartbeat"}'' ex_state)) ''B'' =
     Some (ex_entry 2 ''10.0.0.2'' ''hall'' 20000) \<and>
   telegramSent (on_message ex_parse (ex_conn ''A'' 1 ''10.0.0.1'') 31000
       ''{"type":"heartbeat"}'' ex_state) = []\<close>
proof -
  have p: \<open>ex_parse ''{"type":"heartbeat"}'' = Some (JObj [(''type'', JStr ''heartbeat'')])\<close>
    by (simp add: ex_parse_def)
  have t: "get_prop (JObj [(''type'', JStr ''heartbeat'')]) ''type'' = Inr (JStr ''heartbeat'')"
    by simp
  have e: "map_get (clients ex_state) (clientId (ex_conn ''A'' 1 ''10.0.0.1'')) =
      Some (ex_entry 1 ''10.0.0.1'' ''lab'' 0)"
    by (simp add: ex_state_def ex_conn_def map_get_def)
  from heartbeat_updates_lastSeen_only [where parse = ex_parse, OF p t e, of 31000]
  show ?thesis
    by (simp add: ex_entry_def ex_conn_def ex_state_def map_get_def)
qed

text \<open>
  C5, as amended. For a registered connection, a message whose \<^verbatim>\<open>type\<close> is
  \<^verbatim>\<open>"connect"\<close> or \<^verbatim>\<open>"heartbeat"\<close> sets the entry's \<^verbatim>\<open>lastSeen\<close> to the time of receipt.
\<close>

theorem connect_or_heartbeat_updates_lastSeen:
  assumes "parse text = Some data"
    and "get_prop data ''type'' = Inr (JStr ''connect'') \<or>
         get_prop data ''type'' = Inr (JStr ''heartbeat'')"
    and "map_get (clients s) (clientId c) = Some d"
  shows "map_option (\<lambda>d'. lastSeen (metadata d'))
           (map_get (clients (on_message parse c now text s)) (clientId c)) = Some now"
  using assms
  by (auto simp: on_message_def Let_def map_get_map_set split: option.splits)

theorem connect_or_heartbeat_updates_lastSeen_witness:
  \<open>map_option (\<lambda>d'. lastSeen (metadata d'))
     (map_get (clients (on_message ex_parse (ex_conn ''A'' 1 ''10.0.0.1'') 31000
        ''{"type":"connect","location_device":"gate"}'' ex_state)) ''A'') = Some 31000\<close>
proof -
  have p: \<open>ex_parse ''{"type":"connect","location_device":"gate"}'' =
      Some (JObj [(''type'', JStr ''connect''), (''location_device'', JStr ''gate'')])\<close>
    by (simp add: ex_parse_def)
  have t: "get_prop (JObj [(''type'', JStr ''connect''), (''location_device'', JStr ''gate'')])
         ''type'' = Inr (JStr ''connect'') \<or>
       get_prop (JObj [(''type'', JStr ''connect''), (''location_device'', JStr ''gate'')])
         ''type'' = Inr (JStr ''heartbeat'')"
    by simp
  have e: "map_get (clients ex_state) (clientId (ex_conn ''A'' 1 ''10.0.0.1'')) =
      Some (ex_entry 1 ''10.0.0.1'' ''lab'' 0)"
    by (simp add: ex_state_def ex_conn_def map_get_def)
  from connect_or_heartbeat_updates_lastSeen [where parse = ex_parse, OF p t e, of 31000]
  show ?thesis
    by (simp add: ex_conn_def)
qed

text \<open>
  C5 as stated fails: a message of type \<^verbatim>\<open>"unknown"\<close> from device \<open>A\<close>, received at
  31000, leaves the entry's \<^verbatim>\<open>lastSeen\<close> at 0.
\<close>

theorem unknown_type_keeps_lastSeen:
  \<open>map_option (\<lambda>d'. lastSeen (metadata d'))
     (map_get (clients (on_message ex_parse (ex_conn ''A'' 1 ''10.0.0.1'') 31000
        ''{"type":"unknown"}'' ex_state)) ''A'') = Some 0\<close>
  by (simp add: on_message_def ex_parse_def ex_conn_def ex_state_def ex_entry_def map_get_def)

text \<open>
  C6. A message whose text does not parse, or parses to anything but a record (a number,
  a string, an array, \<^verbatim>\<open>null\<close>), is discarded: the whole state is as before, that is the
  registry, every transport (none is closed, nothing is sent) and what has been sent to
  the operator.
\<close>

theorem malformed_message_discarded:
  "(\<forall>kvs. parse text \<noteq> Some (JObj kvs)) \<Longrightarrow> on_message parse c now text s = s"
proof (cases "parse text")
  case None
  then show ?thesis by (simp add: on_message_def)
next
  case (Some data)
  assume "\<forall>kvs. parse text \<noteq> Some (JObj kvs)"
  with Some have "\<And>kvs. data \<noteq> JObj kvs" by auto
  then have "get_prop data ''type'' = Inl TypeError \<or> get_prop data ''type'' = Inr JUndefined"
    by (cases data) auto
  with Some show ?thesis
    by (auto simp: on_message_def split: option.splits)
qed

theorem malformed_message_discarded_witness:
  \<open>on_message ex_parse (ex_conn ''A'' 1 ''10.0.0.1'') 31000 ''{"type":'' ex_state = ex_state\<close>
proof -
  have \<open>\<forall>kvs. ex_parse ''{"type":'' \<noteq> Some (JObj kvs)\<close>
    by (simp add: ex_parse_def)
  then show ?thesis
    by (rule malformed_message_discarded [where parse = ex_parse])
qed

text \<open>
  C7, as amended. The \<^verbatim>\<open>close\<close> event of a connection's transport removes the entry
  stored under the connection's identifier and leaves every other entry as it was (the
  handler first logs the stored address, which has to convert to a string, as every
  string does). The \<^verbatim>\<open>error\<close> handler leaves the whole state unchanged, and so the
  \<^verbatim>\<open>error\<close> event, at which the library has the transport closing, leaves the registry
  unchanged.
\<close>

theorem close_removes_entry_error_keeps_it:
  assumes "\<forall>d. map_get (clients s) (clientId c) = Some d \<longrightarrow> printable (ip (metadata d))"
  shows "(\<exists>s1. close_event c s = Inr s1 \<and>
            map_get (clients s1) (clientId c) = None \<and>
            clientId c \<notin> set (map fst (clients s1)) \<and>
            (\<forall>k. k \<noteq> clientId c \<longrightarrow> map_get (clients s1) k = map_get (clients s) k)) \<and>
         on_error c s = s \<and>
         clients (error_event c s) = clients s"
proof (intro conjI)
  show "\<exists>s1. close_event c s = Inr s1 \<and>
           map_get (clients s1) (clientId c) = None \<and>
           clientId c \<notin> set (map fst (clients s1)) \<and>
           (\<forall>k. k \<noteq> clientId c \<longrightarrow> map_get (clients s1) k = map_get (clients s) k)"
    using close_event_removes [OF assms]
    by (auto simp: map_get_map_delete) (auto simp: map_delete_def)
  show "on_error c s = s"
    by (simp add: on_error_def)
  show "clients (error_event c s) = clients s"
    by (simp add: error_event_def on_error_def)
qed

theorem close_removes_entry_error_keeps_it_witness:
  "(\<exists>s1. close_event (ex_conn ''B'' 2 ''10.0.0.2'') ex_state = Inr s1 \<and>
          map_get (clients s1) ''B'' = None \<and>
          ''B'' \<notin> set (map fst (clients s1)) \<and>
          map_get (clients s1) ''A'' = Some (ex_entry 1 ''10.0.0.1'' ''lab'' 0)) \<and>
   on_error (ex_conn ''B'' 2 ''10.0.0.2'') ex_state = ex_state \<and>
   clients (error_event (ex_conn ''B'' 2 ''10.0.0.2'') ex_state) = clients ex_state"
proof -
  have "\<forall>d. map_get (clients ex_state) (clientId (ex_conn ''B'' 2 ''10.0.0.2'')) = Some d \<longrightarrow>
      printable (ip (metadata d))"
    by (auto simp: ex_state_def ex_conn_def ex_entry_def map_get_def)
  from close_removes_entry_error_keeps_it [OF this] show ?thesis
    by (auto simp: ex_conn_def ex_state_def map_get_def)
qed

text \<open>
  C7 as stated fails for the \<^verbatim>\<open>error\<close> event: after it the entry of device \<open>B\<close> is in
  the registry as before.
\<close>

theorem error_keeps_entry:
  "map_get (clients (on_error (ex_conn ''B'' 2 ''10.0.0.2'') ex_state)) ''B'' =
     Some (ex_entry 2 ''10.0.0.2'' ''hall'' 20000)"
  by (simp add: on_error_def ex_state_def map_get_def)

text \<open>
  C8. A message of the operator channel whose chat identifier is absent or not among
  \<^verbatim>\<open>allowedChatIds\<close> leaves the whole state as it was: nothing is sent on any transport
  and the registry is unchanged, as if the message had not arrived.
\<close>

theorem foreign_chat_ignored:
  "\<forall>chat. chatId msg = Some chat \<longrightarrow> chat \<notin> allowedChatIds s \<Longrightarrow>
   on_telegram (Some msg) s = s"
  by (auto simp: on_telegram_def Let_def split: option.splits)

theorem foreign_chat_ignored_witness:
  "on_telegram (Some (ex_msg ''666'' ''esp32:A:reboot'')) ex_state = ex_state"
proof -
  have "\<forall>chat. chatId (ex_msg ''666'' ''esp32:A:reboot'') = Some chat \<longrightarrow>
      chat \<notin> allowedChatIds ex_state"
    by (simp add: ex_msg_def ex_state_def)
  then show ?thesis
    by (rule foreign_chat_ignored)
qed

text \<open>
  C9. A message that parses to a value whose \<^verbatim>\<open>type\<close> is neither \<^verbatim>\<open>"connect"\<close> nor
  \<^verbatim>\<open>"heartbeat"\<close> (another string, another kind of value, or no \<^verbatim>\<open>type\<close> at all) leaves
  the whole state as it was: the connection's entry with its address, label and
  \<^verbatim>\<open>lastSeen\<close>, the rest of the registry, and every transport with its \<^verbatim>\<open>readyState\<close>.
\<close>

theorem unrecognized_type_no_change:
  assumes "parse text = Some data"
    and "get_prop data ''type'' \<noteq> Inr (JStr ''connect'')"
    and "get_prop data ''type'' \<noteq> Inr (JStr ''heartbeat'')"
  shows "on_message parse c now text s = s"
  using assms by (auto simp: on_message_def split: option.splits sum.splits)

theorem unrecognized_type_no_change_witness:
  \<open>on_message ex_parse (ex_conn ''A'' 1 ''10.0.0.1'') 31000 ''{"type":"unknown"}'' ex_state =
     ex_state\<close>
proof -
  have p: \<open>ex_parse ''{"type":"unknown"}'' = Some (JObj [(''type'', JStr ''unknown'')])\<close>
    by (simp add: ex_parse_def)
  show ?thesis
    by (rule unrecognized_type_no_change [where parse = ex_parse, OF p]) simp_all
qed

text \<open>
  C10, at an input where the code misses it. After the run from the start of the server
  in which \<open>A\<close> registers with an address that does not convert to a string and \<open>B\<close>
  only answers the probe, the entry of \<open>B\<close> has the \<^verbatim>\<open>lastSeen\<close> 1000 of its connection
  and its transport is open. The sweep at 60000 finds \<open>A\<close> overdue first, and its log
  line raises: the callback ends with the exception, the transport of \<open>B\<close> is not
  terminated and its entry stays, although \<open>B\<close> is overdue by more than 30000 ms.
\<close>

theorem unloggable_address_blocks_eviction:
  "\<not> isl (run ex_parse ex_events ex_init) \<and>
   map_get (clients (projr (run ex_parse ex_events ex_init))) ''B'' =
     Some \<lparr>ws = 2, metadata = \<lparr>ip = JStr ''10.0.0.2'', location_device = JStr waiting,
                                lastSeen = 1000\<rparr>\<rparr> \<and>
   readyState (sockets (projr (run ex_parse ex_events ex_init)) 2) = OPEN \<and>
   isAlive (sockets (projr (run ex_parse ex_events ex_init)) 2) \<and>
   sweep 60000 (projr (run ex_parse ex_events ex_init)) = Inl TypeError \<and>
   run ex_parse (ex_events @ [SweepTick 60000]) ex_init = Inl TypeError"
proof -
  define s1 where "s1 = on_connection (ex_conn ''B'' 2 ''10.0.0.2'') 1000
      (on_connection (ex_conn ''A'' 1 ''10.0.0.1'') 0 ex_init)"
  have reg1: "clients s1 =
      [(''A'', \<lparr>ws = 1, metadata = \<lparr>ip = JStr ''10.0.0.1'', location_device = JStr waiting,
                                   lastSeen = 0\<rparr>\<rparr>),
       (''B'', \<lparr>ws = 2, metadata = \<lparr>ip = JStr ''10.0.0.2'', location_device = JStr waiting,
                                   lastSeen = 1000\<rparr>\<rparr>)]"
    by (simp add: s1_def on_connection_def ex_conn_def ex_init_def Let_def)
  have open1: "readyState (sockets s1 2) = OPEN"
    by (simp add: s1_def on_connection_def ex_conn_def ex_init_def Let_def ws_send_def)
  define s2 where \<open>s2 = on_message ex_parse (ex_conn ''A'' 1 ''10.0.0.1'') 2000
      ''{"type":"connect","ip":{"toString":1}}'' s1\<close>
  have reg2: "clients s2 =
      [(''A'', \<lparr>ws = 1, metadata = \<lparr>ip = JObj [(''toString'', JNum 1)],
                                   location_device = JStr ''Unknown'', lastSeen = 2000\<rparr>\<rparr>),
       (''B'', \<lparr>ws = 2, metadata = \<lparr>ip = JStr ''10.0.0.2'', location_device = JStr waiting,
                                   lastSeen = 1000\<rparr>\<rparr>)]"
    and socks2: "sockets s2 = sockets s1"
    by (simp_all add: s2_def on_message_def ex_parse_def ex_conn_def reg1 map_get_def
          field_def or_else_def Let_def)
  define s3 where "s3 = heartbeat (ex_conn ''B'' 2 ''10.0.0.2'') (probe_tick s2)"
  have reg3: "clients s3 = clients s2"
    by (simp add: s3_def heartbeat_def probe_tick_def broadcast_def)
  have open3: "readyState (sockets s3 2) = OPEN" and alive3: "isAlive (sockets s3 2)"
    using open1
    by (simp_all add: s3_def heartbeat_def probe_tick_def broadcast_def reg2 socks2 ex_conn_def
          ws_send_def)
  have ran: "run ex_parse ex_events ex_init = Inr s3"
    by (simp add: ex_events_def s1_def s2_def s3_def)
  have swept: "sweep 60000 s3 = Inl TypeError"
    by (simp add: sweep_def reg3 reg2)
  have "run ex_parse (ex_events @ [SweepTick 60000]) ex_init = Inl TypeError"
    using swept by (simp add: ex_events_def s1_def s2_def s3_def)
  with ran swept open3 alive3 show ?thesis
    by (simp add: reg3 reg2 map_get_def)
qed

end
